theory Spec2Isabelle
  imports Complex_Main
begin

section \<open>A random Markov-chain generative model (one.py)\<close>

text \<open>
  The script defines one class, \<open>GenerativeModel\<close>, with a constructor that draws a random
  row-normalised transition matrix, a method \<open>sample_next_state\<close> that draws the next
  state from the row of the current one, and a method \<open>run_simulation\<close> that rolls the
  chain out for a number of steps.

  Conventions of the embedding:
  \<^item> numpy's float64 values are real numbers together with the IEEE special values a
    division by zero produces (\<open>NaN\<close>, \<open>PosInf\<close>, \<open>NegInf\<close>); rounding is not modelled;
  \<^item> numpy's global random generator is the sequence of uniform doubles in \<open>[0, 1)\<close> it
    will hand out, a function \<open>nat \<Rightarrow> real\<close>; drawing \<open>k\<close> numbers reads its first
    \<open>k\<close> values and advances it by \<open>k\<close>;
  \<^item> a Python exception is a value \<open>Inl e\<close> of a sum type;
  \<^item> the Python interpreter state a method can touch is the object \<open>self\<close> and the
    global generator, the record \<open>world\<close>; a method returns its result and the new
    world.
\<close>

subsection \<open>Values\<close>

datatype py_error = ValueError | IndexError

datatype npfloat = Fin real | NaN | PosInf | NegInf

text \<open>
  The argument \<open>current_state\<close> is either a one-dimensional array (\<open>Vec\<close>) or a plain
  Python integer, which numpy treats as a zero-dimensional array (\<open>Scalar\<close>).
\<close>

datatype state_arg = Vec "real list" | Scalar int

type_synonym rng = "nat \<Rightarrow> real"

record GenerativeModel =
  world_size :: int
  states :: "real list list"
  transition_matrix :: "npfloat list list"

record world =
  obj :: GenerativeModel
  rand :: rng

subsection \<open>The numpy operations the class calls\<close>

definition advance :: "nat \<Rightarrow> rng \<Rightarrow> rng" where
  "advance k g = (\<lambda>n. g (n + k))"

text \<open>A one-hot vector of length \<open>n\<close> with its 1 at position \<open>i\<close>.\<close>

definition onehot :: "nat \<Rightarrow> nat \<Rightarrow> real list" where
  "onehot n i = (replicate n 0)[i := 1]"

text \<open>\<open>np.eye(n)\<close>: the identity matrix; a negative dimension raises ValueError.\<close>

definition np_eye :: "int \<Rightarrow> py_error + real list list" where
  "np_eye n = (if n < 0 then Inl ValueError
               else Inr (map (onehot (nat n)) [0..<nat n]))"

text \<open>
  \<open>np.random.uniform(size=(r, c))\<close>: an \<open>r\<close> by \<open>c\<close> array filled row by row with the
  next \<open>r * c\<close> doubles of the generator (low 0, high 1).
\<close>

definition np_random_uniform :: "int \<Rightarrow> int \<Rightarrow> rng \<Rightarrow> (py_error + real list list) \<times> rng" where
  "np_random_uniform r c g =
     (if r < 0 \<or> c < 0 then (Inl ValueError, g)
      else (Inr (map (\<lambda>i. map (\<lambda>j. g (i * nat c + j)) [0..<nat c]) [0..<nat r]),
            advance (nat r * nat c) g))"

text \<open>Float division of a finite number by a finite number.\<close>

definition np_div :: "real \<Rightarrow> real \<Rightarrow> npfloat" where
  "np_div x s =
     (if s \<noteq> 0 then Fin (x / s)
      else if x = 0 then NaN
      else if 0 < x then PosInf
      else NegInf)"

text \<open>
  \<open>np.argmax\<close>: the index of the first occurrence of the largest entry. The scan keeps the
  best value seen so far and its index, and replaces them only on a strictly larger entry.
  An empty array raises ValueError; a scalar is a zero-dimensional array, whose argmax is 0.
\<close>

fun argmax_scan :: "real list \<Rightarrow> nat \<Rightarrow> real \<Rightarrow> nat \<Rightarrow> nat" where
  "argmax_scan [] k best bi = bi"
| "argmax_scan (x # xs) k best bi =
     (if best < x then argmax_scan xs (Suc k) x k else argmax_scan xs (Suc k) best bi)"

fun np_argmax :: "state_arg \<Rightarrow> py_error + nat" where
  "np_argmax (Scalar k) = Inr 0"
| "np_argmax (Vec []) = Inl ValueError"
| "np_argmax (Vec (x # xs)) = Inr (argmax_scan xs 1 x 0)"

text \<open>\<open>matrix[i]\<close> for a non-negative index: the row, or IndexError out of range.\<close>

definition getitem_row :: "'a list list \<Rightarrow> nat \<Rightarrow> py_error + 'a list" where
  "getitem_row m i = (if i < length m then Inr (m ! i) else Inl IndexError)"

text \<open>
  \<open>np.zeros_like\<close>: zeros in the shape of the argument; for a scalar, a zero-dimensional
  array. \<open>a[j] = v\<close> on a one-dimensional array writes in range and raises IndexError out
  of range; on a zero-dimensional array it always raises IndexError.
\<close>

fun np_zeros_like :: "state_arg \<Rightarrow> state_arg" where
  "np_zeros_like (Vec v) = Vec (replicate (length v) 0)"
| "np_zeros_like (Scalar k) = Scalar 0"

fun setitem :: "state_arg \<Rightarrow> nat \<Rightarrow> real \<Rightarrow> py_error + state_arg" where
  "setitem (Vec v) j x = (if j < length v then Inr (Vec (v[j := x])) else Inl IndexError)"
| "setitem (Scalar k) j x = Inl IndexError"

text \<open>
  \<open>np.random.choice(a, p=p)\<close> for an integer \<open>a\<close>. The arguments are checked first:
  \<open>a\<close> must be positive, \<open>p\<close> must have \<open>a\<close> entries, none of them NaN or negative, and
  their sum must be 1 up to the tolerance \<open>sqrt (eps)\<close>, which is \<open>2 ^ -26\<close> for float64;
  each violation raises ValueError before anything is drawn. Then one uniform double
  \<open>u\<close> is drawn and the result is the position of \<open>u\<close> in the cumulative sums of \<open>p\<close>
  divided by their last entry (searchsorted, side right): the number of entries of
  that non-decreasing array that are at most \<open>u\<close>.
\<close>

fun fin_values :: "npfloat list \<Rightarrow> real list option" where
  "fin_values [] = Some []"
| "fin_values (Fin x # ps) = (case fin_values ps of None \<Rightarrow> None | Some xs \<Rightarrow> Some (x # xs))"
| "fin_values (_ # ps) = None"

fun cumsum_from :: "real \<Rightarrow> real list \<Rightarrow> real list" where
  "cumsum_from acc [] = []"
| "cumsum_from acc (x # xs) = (acc + x) # cumsum_from (acc + x) xs"

definition np_cumsum :: "real list \<Rightarrow> real list" where
  "np_cumsum xs = cumsum_from 0 xs"

definition searchsorted_right :: "real list \<Rightarrow> real \<Rightarrow> nat" where
  "searchsorted_right cdf u = length (filter (\<lambda>c. c \<le> u) cdf)"

definition atol :: real where
  "atol = 1 / 2 ^ 26"

definition np_random_choice :: "nat \<Rightarrow> npfloat list \<Rightarrow> rng \<Rightarrow> (py_error + nat) \<times> rng" where
  "np_random_choice a p g =
     (if a = 0 then (Inl ValueError, g)
      else if length p \<noteq> a then (Inl ValueError, g)
      else (case fin_values p of
              None \<Rightarrow> (Inl ValueError, g)
            | Some q \<Rightarrow>
                if \<not> list_all (\<lambda>x. 0 \<le> x) q then (Inl ValueError, g)
                else if atol < \<bar>sum_list q - 1\<bar> then (Inl ValueError, g)
                else (let cdf = map (\<lambda>c. c / last (np_cumsum q)) (np_cumsum q);
                          u = g 0
                      in (Inr (searchsorted_right cdf u), advance 1 g))))"

subsection \<open>The class\<close>

text \<open>
  \<open>_create_transition_matrix\<close>: a \<open>world_size\<close> by \<open>world_size\<close> array of uniform draws,
  each row divided by its sum.
\<close>

definition create_transition_matrix :: "int \<Rightarrow> rng \<Rightarrow> (py_error + npfloat list list) \<times> rng" where
  "create_transition_matrix ws g =
     (case np_random_uniform ws ws g of
        (Inl e, g') \<Rightarrow> (Inl e, g')
      | (Inr matrix, g') \<Rightarrow>
          (Inr (map (\<lambda>row. map (\<lambda>x. np_div x (sum_list row)) row) matrix), g'))"

text \<open>\<open>__init__\<close>: stores the size, the one-hot states and the transition matrix.\<close>

definition init :: "int \<Rightarrow> rng \<Rightarrow> py_error + world" where
  "init ws g =
     (case np_eye ws of
        Inl e \<Rightarrow> Inl e
      | Inr eye \<Rightarrow>
          (case create_transition_matrix ws g of
             (Inl e, g') \<Rightarrow> Inl e
           | (Inr tm, g') \<Rightarrow>
               Inr \<lparr>obj = \<lparr>world_size = ws, states = eye, transition_matrix = tm\<rparr>,
                    rand = g'\<rparr>))"

text \<open>
  \<open>sample_next_state\<close>: decode the current state with argmax, read that row of the
  matrix, draw an index from it, and return a zero array shaped like the argument with
  a 1 at the drawn index. No statement of the method assigns to \<open>self\<close>.
\<close>

definition sample_next_state :: "world \<Rightarrow> state_arg \<Rightarrow> (py_error + state_arg) \<times> world" where
  "sample_next_state w current_state =
     (case np_argmax current_state of
        Inl e \<Rightarrow> (Inl e, w)
      | Inr current_state_id \<Rightarrow>
          (case getitem_row (transition_matrix (obj w)) current_state_id of
             Inl e \<Rightarrow> (Inl e, w)
           | Inr probabilities \<Rightarrow>
               (case np_random_choice (length probabilities) probabilities (rand w) of
                  (Inl e, g') \<Rightarrow> (Inl e, w\<lparr>rand := g'\<rparr>)
                | (Inr next_state_id, g') \<Rightarrow>
                    (setitem (np_zeros_like current_state) next_state_id 1,
                     w\<lparr>rand := g'\<rparr>))))"

text \<open>
  \<open>run_simulation\<close>: the loop over \<open>range(num_steps)\<close>, which is empty for a negative
  \<open>num_steps\<close>, carries the current state and the trajectory built so far; an exception
  in a step ends the call.
\<close>

fun simulation_loop ::
  "nat \<Rightarrow> world \<Rightarrow> state_arg \<Rightarrow> state_arg list \<Rightarrow> (py_error + state_arg list) \<times> world" where
  "simulation_loop 0 w current_state trajectory = (Inr trajectory, w)"
| "simulation_loop (Suc n) w current_state trajectory =
     (case sample_next_state w current_state of
        (Inl e, w') \<Rightarrow> (Inl e, w')
      | (Inr next_state, w') \<Rightarrow>
          simulation_loop n w' next_state (trajectory @ [next_state]))"

definition run_simulation ::
  "world \<Rightarrow> state_arg \<Rightarrow> int \<Rightarrow> (py_error + state_arg list) \<times> world" where
  "run_simulation w initial_state num_steps =
     simulation_loop (nat num_steps) w initial_state [initial_state]"

subsection \<open>Well-formed models and generators\<close>

text \<open>
  A row is a probability distribution when all its entries are finite and non-negative
  and they sum to 1.
\<close>

definition is_distribution :: "npfloat list \<Rightarrow> bool" where
  "is_distribution p =
     (case fin_values p of
        None \<Rightarrow> False
      | Some q \<Rightarrow> list_all (\<lambda>x. 0 \<le> x) q \<and> sum_list q = 1)"

text \<open>
  The data-model invariant of a model with \<open>n\<close> states: the size is \<open>n\<close>, the states are
  the \<open>n\<close> one-hot vectors, and the matrix has \<open>n\<close> rows, each a distribution over \<open>n\<close>
  indices.
\<close>

definition wf_model :: "nat \<Rightarrow> GenerativeModel \<Rightarrow> bool" where
  "wf_model n m =
     (world_size m = int n \<and>
      states m = map (onehot n) [0..<n] \<and>
      length (transition_matrix m) = n \<and>
      list_all (\<lambda>row. length row = n \<and> is_distribution row) (transition_matrix m))"

text \<open>The generator hands out numbers of the half-open unit interval.\<close>

definition uniform01 :: "rng \<Rightarrow> bool" where
  "uniform01 g = (\<forall>n. 0 \<le> g n \<and> g n < 1)"

subsection \<open>Concrete generators and models\<close>

text \<open>
  A generator that always yields the same number, one that alternates between \<open>1/8\<close>
  and \<open>7/8\<close>, and two small models: a two-state model with rows \<open>(1/4, 3/4)\<close> and
  \<open>(1/2, 1/2)\<close>, and the three-state model whose matrix is the identity, in which every
  state stays where it is.
\<close>

definition const_gen :: "real \<Rightarrow> rng" where
  "const_gen c = (\<lambda>n. c)"

definition example_model2 :: GenerativeModel where
  "example_model2 =
     \<lparr>world_size = 2, states = [[1, 0], [0, 1]],
      transition_matrix = [[Fin (1 / 4), Fin (3 / 4)], [Fin (1 / 2), Fin (1 / 2)]]\<rparr>"

definition example_world2 :: world where
  "example_world2 = \<lparr>obj = example_model2, rand = const_gen (1 / 2)\<rparr>"

definition identity_model3 :: GenerativeModel where
  "identity_model3 =
     \<lparr>world_size = 3, states = [[1, 0, 0], [0, 1, 0], [0, 0, 1]],
      transition_matrix =
        [[Fin 1, Fin 0, Fin 0], [Fin 0, Fin 1, Fin 0], [Fin 0, Fin 0, Fin 1]]\<rparr>"

definition identity_world3 :: world where
  "identity_world3 = \<lparr>obj = identity_model3, rand = const_gen (1 / 2)\<rparr>"



section \<open>Properties\<close>

subsection \<open>The generator and one-hot vectors\<close>

lemma advance_0: "advance 0 g = g"
  by (simp add: advance_def)

lemma advance_advance: "advance k (advance j g) = advance (j + k) g"
  by (simp add: advance_def fun_eq_iff ac_simps)

lemma uniform01_advance: "uniform01 g \<Longrightarrow> uniform01 (advance k g)"
  by (simp add: uniform01_def advance_def)

lemma length_onehot: "length (onehot n i) = n"
  by (simp add: onehot_def)

lemma nth_onehot: "l < n \<Longrightarrow> onehot n i ! l = (if l = i then 1 else 0)"
  by (simp add: onehot_def nth_list_update)

lemma argmax_scan_spec:
  assumes "length pre = k" "bi < k" "pre ! bi = best"
    "\<forall>l<k. pre ! l \<le> best" "\<forall>l<bi. pre ! l < best"
  shows "argmax_scan xs k best bi < length (pre @ xs) \<and>
         (\<forall>l<length (pre @ xs). (pre @ xs) ! l \<le> (pre @ xs) ! argmax_scan xs k best bi) \<and>
         (\<forall>l<argmax_scan xs k best bi. (pre @ xs) ! l < (pre @ xs) ! argmax_scan xs k best bi)"
  using assms
proof (induction xs arbitrary: pre k best bi)
  case Nil
  then show ?case by simp
next
  case (Cons x xs)
  show ?case
  proof (cases "best < x")
    case True
    have "argmax_scan xs (Suc k) x k < length ((pre @ [x]) @ xs) \<and>
         (\<forall>l<length ((pre @ [x]) @ xs). ((pre @ [x]) @ xs) ! l \<le> ((pre @ [x]) @ xs) ! argmax_scan xs (Suc k) x k) \<and>
         (\<forall>l<argmax_scan xs (Suc k) x k. ((pre @ [x]) @ xs) ! l < ((pre @ [x]) @ xs) ! argmax_scan xs (Suc k) x k)"
    proof (rule Cons.IH)
      show "length (pre @ [x]) = Suc k" using Cons.prems by simp
      show "k < Suc k" by simp
      show "(pre @ [x]) ! k = x" using Cons.prems by (simp add: nth_append)
      show "\<forall>l<Suc k. (pre @ [x]) ! l \<le> x"
        using Cons.prems True by (auto simp: nth_append less_Suc_eq intro: less_imp_le order.trans)
      show "\<forall>l<k. (pre @ [x]) ! l < x"
        using Cons.prems True by (auto simp: nth_append intro: le_less_trans)
    qed
    then show ?thesis using True by simp
  next
    case False
    have "argmax_scan xs (Suc k) best bi < length ((pre @ [x]) @ xs) \<and>
         (\<forall>l<length ((pre @ [x]) @ xs). ((pre @ [x]) @ xs) ! l \<le> ((pre @ [x]) @ xs) ! argmax_scan xs (Suc k) best bi) \<and>
         (\<forall>l<argmax_scan xs (Suc k) best bi. ((pre @ [x]) @ xs) ! l < ((pre @ [x]) @ xs) ! argmax_scan xs (Suc k) best bi)"
    proof (rule Cons.IH)
      show "length (pre @ [x]) = Suc k" using Cons.prems by simp
      show "bi < Suc k" using Cons.prems by simp
      show "(pre @ [x]) ! bi = best" using Cons.prems by (simp add: nth_append)
      show "\<forall>l<Suc k. (pre @ [x]) ! l \<le> best"
        using Cons.prems False by (auto simp: nth_append less_Suc_eq)
      show "\<forall>l<bi. (pre @ [x]) ! l < best"
        using Cons.prems by (auto simp: nth_append)
    qed
    then show ?thesis using False by simp
  qed
qed

lemma np_argmax_Vec:
  assumes "v \<noteq> []"
  shows "\<exists>r. np_argmax (Vec v) = Inr r \<and> r < length v \<and>
             (\<forall>l<length v. v ! l \<le> v ! r) \<and> (\<forall>l<r. v ! l < v ! r)"
proof -
  obtain x xs where v: "v = x # xs" using assms by (cases v) auto
  have "argmax_scan xs 1 x 0 < length ([x] @ xs) \<and>
         (\<forall>l<length ([x] @ xs). ([x] @ xs) ! l \<le> ([x] @ xs) ! argmax_scan xs 1 x 0) \<and>
         (\<forall>l<argmax_scan xs 1 x 0. ([x] @ xs) ! l < ([x] @ xs) ! argmax_scan xs 1 x 0)"
    by (rule argmax_scan_spec) simp_all
  then show ?thesis using v by simp
qed

lemma np_argmax_onehot:
  assumes "i < n"
  shows "np_argmax (Vec (onehot n i)) = Inr i"
proof -
  have ne: "onehot n i \<noteq> []" using assms length_onehot[of n i] by auto
  obtain r where r: "np_argmax (Vec (onehot n i)) = Inr r" "r < length (onehot n i)"
    "\<forall>l<length (onehot n i). onehot n i ! l \<le> onehot n i ! r"
    using np_argmax_Vec[OF ne] by blast
  have rn: "r < n" using r(2) by (simp add: length_onehot)
  have "onehot n i ! i \<le> onehot n i ! r" using r(3) assms by (simp add: length_onehot)
  then have "r = i" using assms rn by (simp add: nth_onehot split: if_splits)
  then show ?thesis using r(1) by simp
qed

lemma fin_values_SomeD: "fin_values p = Some q \<Longrightarrow> p = map Fin q"
proof (induction p arbitrary: q)
  case Nil
  then show ?case by simp
next
  case (Cons a p)
  then show ?case by (cases a) (auto split: option.splits)
qed

lemma length_cumsum_from: "length (cumsum_from a xs) = length xs"
  by (induction xs arbitrary: a) auto

lemma last_cumsum_from:
  "xs \<noteq> [] \<Longrightarrow> last (cumsum_from a xs) = a + sum_list xs"
proof (induction xs arbitrary: a)
  case Nil
  then show ?case by simp
next
  case (Cons x xs)
  show ?case
  proof (cases "xs = []")
    case True
    then show ?thesis by simp
  next
    case False
    then have "cumsum_from (a + x) xs \<noteq> []"
      using length_cumsum_from[of "a + x" xs] by auto
    then show ?thesis using Cons.IH[OF False, of "a + x"] by (simp add: add.assoc)
  qed
qed

lemma searchsorted_cumsum_from_less:
  assumes "\<forall>x\<in>set xs. 0 \<le> x" "xs \<noteq> []" "u < a + sum_list xs"
  shows "searchsorted_right (cumsum_from a xs) u < length xs"
proof -
  let ?cs = "cumsum_from a xs"
  have ne: "?cs \<noteq> []" using assms(2) length_cumsum_from[of a xs] by auto
  have "last ?cs \<in> set ?cs" using ne by simp
  moreover have "\<not> last ?cs \<le> u" using last_cumsum_from[OF assms(2), of a] assms(3) by simp
  ultimately have "length (filter (\<lambda>c. c \<le> u) ?cs) < length ?cs"
    by (rule length_filter_less)
  then show ?thesis by (simp add: searchsorted_right_def length_cumsum_from)
qed

subsection \<open>The sampler on a distribution\<close>

lemma np_random_choice_distribution:
  assumes "fin_values p = Some q" "list_all (\<lambda>x. 0 \<le> x) q" "sum_list q = 1" "p \<noteq> []"
  shows "np_random_choice (length p) p g =
           (Inr (searchsorted_right (np_cumsum q) (g 0)), advance 1 g)"
proof -
  have lp: "length p = length q" using fin_values_SomeD[OF assms(1)] by simp
  then have qne: "q \<noteq> []" using assms(4) by auto
  have last1: "last (np_cumsum q) = 1"
    using last_cumsum_from[OF qne, of 0] assms(3) by (simp add: np_cumsum_def)
  have "\<not> atol < \<bar>sum_list q - 1\<bar>" using assms(3) by (simp add: atol_def)
  then show ?thesis
    using assms(1,2,4) last1 by (simp add: np_random_choice_def Let_def)
qed

lemma wf_model_row:
  assumes "wf_model n m" "i < n"
  shows "\<exists>q. fin_values (transition_matrix m ! i) = Some q \<and> length q = n \<and>
             list_all (\<lambda>x. 0 \<le> x) q \<and> sum_list q = 1"
proof -
  let ?row = "transition_matrix m ! i"
  have len: "length (transition_matrix m) = n" using assms(1) by (simp add: wf_model_def)
  then have "?row \<in> set (transition_matrix m)" using assms(2) by simp
  then have r: "length ?row = n \<and> is_distribution ?row"
    using assms(1) by (simp add: wf_model_def list_all_iff)
  then obtain q where q: "fin_values ?row = Some q" "list_all (\<lambda>x. 0 \<le> x) q" "sum_list q = 1"
    by (auto simp: is_distribution_def split: option.splits)
  have "length q = n" using fin_values_SomeD[OF q(1)] r by (metis length_map)
  then show ?thesis using q by blast
qed

lemma sample_next_state_row:
  assumes "np_argmax cs = Inr i" "i < length (transition_matrix (obj w))"
    "fin_values (transition_matrix (obj w) ! i) = Some q"
    "list_all (\<lambda>x. 0 \<le> x) q" "sum_list q = 1"
  shows "sample_next_state w cs =
           (setitem (np_zeros_like cs) (searchsorted_right (np_cumsum q) (rand w 0)) 1,
            w\<lparr>rand := advance 1 (rand w)\<rparr>)"
proof -
  let ?p = "transition_matrix (obj w) ! i"
  have "q \<noteq> []" using assms(5) by auto
  then have pne: "?p \<noteq> []" using fin_values_SomeD[OF assms(3)] by simp
  have "np_random_choice (length ?p) ?p (rand w) =
          (Inr (searchsorted_right (np_cumsum q) (rand w 0)), advance 1 (rand w))"
    by (rule np_random_choice_distribution[OF assms(3,4,5) pne])
  then show ?thesis
    using assms(1,2) by (simp add: sample_next_state_def getitem_row_def)
qed

lemma draw_in_range:
  assumes "list_all (\<lambda>x. 0 \<le> x) q" "sum_list q = 1" "u < 1"
  shows "searchsorted_right (np_cumsum q) u < length q"
proof -
  have "q \<noteq> []" using assms(2) by auto
  moreover have "\<forall>x\<in>set q. 0 \<le> x" using assms(1) by (simp add: list_all_iff)
  ultimately show ?thesis
    unfolding np_cumsum_def using assms(2,3)
    by (intro searchsorted_cumsum_from_less) simp_all
qed

lemma setitem_zeros_onehot:
  "j < length v \<Longrightarrow> setitem (np_zeros_like (Vec v)) j 1 = Inr (Vec (onehot (length v) j))"
  by (simp add: onehot_def)

lemma sample_next_state_onehot:
  assumes "wf_model n (obj w)" "i < n" "rand w 0 < 1"
  shows "\<exists>j<n. sample_next_state w (Vec (onehot n i)) =
           (Inr (Vec (onehot n j)), w\<lparr>rand := advance 1 (rand w)\<rparr>)"
proof -
  obtain q where q: "fin_values (transition_matrix (obj w) ! i) = Some q" "length q = n"
      "list_all (\<lambda>x. 0 \<le> x) q" "sum_list q = 1"
    using wf_model_row[OF assms(1,2)] by blast
  let ?j = "searchsorted_right (np_cumsum q) (rand w 0)"
  have len: "i < length (transition_matrix (obj w))"
    using assms(1,2) by (simp add: wf_model_def)
  have jn: "?j < n" using draw_in_range[OF q(3,4) assms(3)] q(2) by simp
  have "sample_next_state w (Vec (onehot n i)) =
          (setitem (np_zeros_like (Vec (onehot n i))) ?j 1, w\<lparr>rand := advance 1 (rand w)\<rparr>)"
    by (rule sample_next_state_row[OF np_argmax_onehot[OF assms(2)] len q(1,3,4)])
  moreover have "setitem (np_zeros_like (Vec (onehot n i))) ?j 1 = Inr (Vec (onehot n ?j))"
    using setitem_zeros_onehot[of ?j "onehot n i"] jn by (simp add: length_onehot)
  ultimately show ?thesis using jn by auto
qed

subsection \<open>What a call changes\<close>

lemma np_random_choice_Inr:
  "np_random_choice a p g = (Inr j, g') \<Longrightarrow> g' = advance 1 g"
  by (auto simp: np_random_choice_def Let_def split: if_splits option.splits)


lemma sample_next_state_Inr:
  assumes "sample_next_state w s = (Inr s', w')"
  shows "w' = w\<lparr>rand := advance 1 (rand w)\<rparr>"
proof -
  from assms obtain i p j g' where
    "np_random_choice (length p) p (rand w) = (Inr j, g')" "w' = w\<lparr>rand := g'\<rparr>"
    by (auto simp: sample_next_state_def split: sum.splits prod.splits)
  then show ?thesis using np_random_choice_Inr by blast
qed


lemma simulation_loop_success:
  assumes "wf_model n (obj w)" "uniform01 (rand w)" "i < n"
  shows "\<exists>ys. simulation_loop k w (Vec (onehot n i)) traj =
                 (Inr (traj @ ys), w\<lparr>rand := advance k (rand w)\<rparr>) \<and>
              length ys = k \<and> (\<forall>y\<in>set ys. \<exists>j<n. y = Vec (onehot n j))"
  using assms
proof (induction k arbitrary: w i traj)
  case 0
  then show ?case by (simp add: advance_0)
next
  case (Suc k)
  let ?w' = "w\<lparr>rand := advance 1 (rand w)\<rparr>"
  have u0: "rand w 0 < 1" using Suc.prems(2) by (simp add: uniform01_def)
  obtain j where j: "j < n"
      "sample_next_state w (Vec (onehot n i)) = (Inr (Vec (onehot n j)), ?w')"
    using sample_next_state_onehot[OF Suc.prems(1,3) u0] by blast
  have wf': "wf_model n (obj ?w')" using Suc.prems(1) by simp
  have un': "uniform01 (rand ?w')" using Suc.prems(2) by (simp add: uniform01_advance)
  obtain ys where ys:
      "simulation_loop k ?w' (Vec (onehot n j)) (traj @ [Vec (onehot n j)]) =
         (Inr ((traj @ [Vec (onehot n j)]) @ ys), ?w'\<lparr>rand := advance k (rand ?w')\<rparr>)"
      "length ys = k" "\<forall>y\<in>set ys. \<exists>j<n. y = Vec (onehot n j)"
    using Suc.IH[OF wf' un' j(1), of "traj @ [Vec (onehot n j)]"] by blast
  have "simulation_loop (Suc k) w (Vec (onehot n i)) traj =
          (Inr (traj @ (Vec (onehot n j) # ys)), w\<lparr>rand := advance (Suc k) (rand w)\<rparr>)"
    using j(2) ys(1) by (simp add: advance_advance)
  moreover have "length (Vec (onehot n j) # ys) = Suc k" using ys(2) by simp
  moreover have "\<forall>y\<in>set (Vec (onehot n j) # ys). \<exists>j<n. y = Vec (onehot n j)"
    using ys(3) j(1) by auto
  ultimately show ?case by blast
qed

subsection \<open>The concrete models\<close>

lemma uniform01_const_gen: "0 \<le> c \<Longrightarrow> c < 1 \<Longrightarrow> uniform01 (const_gen c)"
  by (simp add: uniform01_def const_gen_def)

lemma upt_2: "[0..<2] = [0, Suc 0]"
  by (simp add: upt_rec numeral_2_eq_2)

lemma wf_example_model2: "wf_model 2 example_model2"
  by (simp add: wf_model_def example_model2_def is_distribution_def onehot_def upt_2
      numeral_2_eq_2)

lemma upt_3: "[0..<3] = [0, Suc 0, Suc (Suc 0)]"
  by (simp add: upt_rec numeral_3_eq_3)

lemma wf_identity_model3: "wf_model 3 identity_model3"
  by (simp add: wf_model_def identity_model3_def is_distribution_def onehot_def upt_3
      numeral_3_eq_3)

lemma uniform01_identity_world3: "uniform01 (rand identity_world3)"
  by (simp add: identity_world3_def uniform01_const_gen)

lemma wf_identity_world3: "wf_model 3 (obj identity_world3)"
  by (simp add: identity_world3_def wf_identity_model3)

lemma advance_const_gen: "advance k (const_gen c) = const_gen c"
  by (simp add: advance_def const_gen_def)

lemma example_world2_step0:
  "sample_next_state example_world2 (Vec [1, 0]) = (Inr (Vec [0, 1]), example_world2)"
  by (simp add: sample_next_state_def example_world2_def example_model2_def getitem_row_def
      np_random_choice_def np_cumsum_def searchsorted_right_def atol_def advance_const_gen
      Let_def)
    (simp add: const_gen_def)

lemma example_world2_step1:
  "sample_next_state example_world2 (Vec [0, 1]) = (Inr (Vec [0, 1]), example_world2)"
  by (simp add: sample_next_state_def example_world2_def example_model2_def getitem_row_def
      np_random_choice_def np_cumsum_def searchsorted_right_def atol_def advance_const_gen
      Let_def)
    (simp add: const_gen_def)




lemma identity_world3_step:
  "i < 3 \<Longrightarrow> np_argmax (Vec v) = Inr i \<Longrightarrow>
   sample_next_state identity_world3 (Vec v) =
     (setitem (Vec (replicate (length v) 0)) i 1, identity_world3)"
  by (cases "i = 0"; cases "i = 1"; cases "i = 2")
    (simp_all add: sample_next_state_def identity_world3_def identity_model3_def getitem_row_def
      np_random_choice_def np_cumsum_def searchsorted_right_def atol_def advance_def
      Let_def const_gen_def numeral_2_eq_2)

subsection \<open>The constructor\<close>

lemma init_value:
  "init (int n) g =
     Inr \<lparr>obj = \<lparr>world_size = int n, states = map (onehot n) [0..<n],
                 transition_matrix =
                   map (\<lambda>row. map (\<lambda>x. np_div x (sum_list row)) row)
                     (map (\<lambda>i. map (\<lambda>j. g (i * n + j)) [0..<n]) [0..<n])\<rparr>,
          rand = advance (n * n) g\<rparr>"
  by (simp add: init_def np_eye_def create_transition_matrix_def np_random_uniform_def)

subsection \<open>Decoding the argument and chaining the steps\<close>

lemma sample_next_state_decode:
  assumes "np_argmax (Vec v) = Inr i"
  shows "sample_next_state w (Vec v) = sample_next_state w (Vec (onehot (length v) i))"
proof -
  have ne: "v \<noteq> []" using assms by (cases v) auto
  obtain r where r: "np_argmax (Vec v) = Inr r" "r < length v"
    using np_argmax_Vec[OF ne] by blast
  then have "i < length v" using assms by simp
  then have a: "np_argmax (Vec (onehot (length v) i)) = Inr i" by (rule np_argmax_onehot)
  have z: "np_zeros_like (Vec (onehot (length v) i)) = np_zeros_like (Vec v)"
    by (simp add: length_onehot)
  show ?thesis unfolding sample_next_state_def a z assms by (rule refl)
qed

lemma np_argmax_zeros: "0 < n \<Longrightarrow> np_argmax (Vec (replicate n 0)) = Inr 0"
proof -
  assume n: "0 < n"
  then have ne: "replicate n (0::real) \<noteq> []" by simp
  obtain r where r: "np_argmax (Vec (replicate n 0)) = Inr r" "r < length (replicate n (0::real))"
      "\<forall>l<r. replicate n (0::real) ! l < replicate n 0 ! r"
    using np_argmax_Vec[OF ne] by blast
  have "r = 0"
  proof (rule ccontr)
    assume "r \<noteq> 0"
    then have "0 < r" by simp
    then have "replicate n (0::real) ! 0 < replicate n 0 ! r" using r(3) by blast
    then show False using r(2) n by simp
  qed
  then show ?thesis using r(1) by simp
qed

lemma sample_next_state_first_draw:
  assumes "g 0 = g' 0"
  shows "fst (sample_next_state (w\<lparr>rand := g\<rparr>) s) = fst (sample_next_state (w\<lparr>rand := g'\<rparr>) s)"
  using assms
  by (simp add: sample_next_state_def np_random_choice_def Let_def
      split: sum.splits option.splits)

lemma simulation_loop_chain:
  assumes "simulation_loop k w cs traj = (Inr res, w')"
  shows "\<exists>ys. res = traj @ ys \<and> length ys = k \<and>
              (\<forall>i<k. fst (sample_next_state (w\<lparr>rand := advance i (rand w)\<rparr>) ((cs # ys) ! i)) =
                      Inr (ys ! i)) \<and>
              w' = w\<lparr>rand := advance k (rand w)\<rparr>"
  using assms
proof (induction k arbitrary: w cs traj)
  case 0
  then show ?case by (simp add: advance_0)
next
  case (Suc k)
  obtain r w1 where step: "sample_next_state w cs = (r, w1)" by (cases "sample_next_state w cs")
  show ?case
  proof (cases r)
    case (Inl e)
    then show ?thesis using Suc.prems step by simp
  next
    case (Inr ns)
    have w1: "w1 = w\<lparr>rand := advance 1 (rand w)\<rparr>"
      using sample_next_state_Inr step Inr by blast
    have loop: "simulation_loop k w1 ns (traj @ [ns]) = (Inr res, w')"
      using Suc.prems step Inr by simp
    obtain ys where ys: "res = (traj @ [ns]) @ ys" "length ys = k"
        "\<forall>i<k. fst (sample_next_state (w1\<lparr>rand := advance i (rand w1)\<rparr>) ((ns # ys) ! i)) =
                Inr (ys ! i)"
        "w' = w1\<lparr>rand := advance k (rand w1)\<rparr>"
      using Suc.IH[OF loop] by blast
    have shift: "w1\<lparr>rand := advance i (rand w1)\<rparr> = w\<lparr>rand := advance (Suc i) (rand w)\<rparr>" for i
      using w1 by (simp add: advance_advance)
    have chain: "fst (sample_next_state (w\<lparr>rand := advance i (rand w)\<rparr>) ((cs # ns # ys) ! i)) =
                   Inr ((ns # ys) ! i)" if "i < Suc k" for i
    proof (cases i)
      case 0
      then show ?thesis using step Inr by (simp add: advance_0)
    next
      case (Suc i')
      then have "i' < k" using that by simp
      then show ?thesis using ys(3) shift Suc by simp
    qed
    have "res = traj @ (ns # ys)" using ys(1) by simp
    moreover have "length (ns # ys) = Suc k" using ys(2) by simp
    moreover have "w' = w\<lparr>rand := advance (Suc k) (rand w)\<rparr>" using ys(4) shift by simp
    ultimately show ?thesis using chain by blast
  qed
qed

section \<open>The claims\<close>

text \<open>
  C1. The constructor at an input where the property fails. With \<open>world_size = 1\<close> and
  the draw \<open>0.0\<close>, a number of \<open>[0, 1)\<close> that \<open>np.random.uniform\<close> can return, the sum of
  the only row is 0, the division is \<open>0.0 / 0.0\<close>, and the matrix stored is the single
  entry NaN: it is not an entry \<open>\<ge> 0\<close> and the row does not sum to 1, where the docstring
  of \<open>_create_transition_matrix\<close> promises a normalized transition matrix. No rounding
  takes part in this evaluation.
\<close>

theorem init_zero_row_is_nan:
  "uniform01 (const_gen 0) \<and>
   init 1 (const_gen 0) =
     Inr \<lparr>obj = \<lparr>world_size = 1, states = [[1]], transition_matrix = [[NaN]]\<rparr>,
          rand = const_gen 0\<rparr> \<and>
   \<not> is_distribution [NaN]"
proof -
  have "init 1 (const_gen 0) =
     Inr \<lparr>obj = \<lparr>world_size = 1, states = [[1]], transition_matrix = [[NaN]]\<rparr>,
          rand = const_gen 0\<rparr>"
    using init_value[of 1 "const_gen 0"]
    by (simp add: onehot_def np_div_def const_gen_def advance_def)
  then show ?thesis by (simp add: uniform01_const_gen is_distribution_def)
qed

text \<open>
  C2. On a well-formed model, for every valid initial state (the one-hot vector of an
  index below \<open>n\<close>) and every \<open>num_steps = k \<ge> 0\<close>, \<open>run_simulation\<close> returns a
  trajectory of exactly \<open>k + 1\<close> states whose first element is the initial state; and
  with \<open>num_steps = 0\<close> it returns exactly the list holding the initial state, for any
  argument and any model.
\<close>

theorem run_simulation_length_first:
  "(wf_model n (obj w) \<and> uniform01 (rand w) \<and> i < n \<and> 0 \<le> k \<longrightarrow>
      (\<exists>traj. fst (run_simulation w (Vec (onehot n i)) k) = Inr traj \<and>
              length traj = nat k + 1 \<and> traj ! 0 = Vec (onehot n i))) \<and>
   fst (run_simulation w' s0 0) = Inr [s0]"
proof (intro conjI impI)
  assume h: "wf_model n (obj w) \<and> uniform01 (rand w) \<and> i < n \<and> 0 \<le> k"
  then obtain ys where ys:
      "simulation_loop (nat k) w (Vec (onehot n i)) [Vec (onehot n i)] =
         (Inr ([Vec (onehot n i)] @ ys), w\<lparr>rand := advance (nat k) (rand w)\<rparr>)"
      "length ys = nat k"
    using simulation_loop_success[of n w i "nat k" "[Vec (onehot n i)]"] by blast
  then show "\<exists>traj. fst (run_simulation w (Vec (onehot n i)) k) = Inr traj \<and>
              length traj = nat k + 1 \<and> traj ! 0 = Vec (onehot n i)"
    by (simp add: run_simulation_def)
next
  show "fst (run_simulation w' s0 0) = Inr [s0]"
    by (simp add: run_simulation_def)
qed

theorem run_simulation_length_first_witness:
  "wf_model 2 (obj example_world2) \<and> uniform01 (rand example_world2) \<and>
   (0::nat) < 2 \<and> (0::int) \<le> 3 \<and>
   (\<exists>traj. fst (run_simulation example_world2 (Vec (onehot 2 0)) 3) = Inr traj \<and>
           length traj = nat 3 + 1 \<and> traj ! 0 = Vec (onehot 2 0))"
proof -
  have h: "wf_model 2 (obj example_world2) \<and> uniform01 (rand example_world2) \<and>
           (0::nat) < 2 \<and> (0::int) \<le> 3"
    by (simp add: example_world2_def wf_example_model2 uniform01_const_gen)
  from run_simulation_length_first[of 2 example_world2 0 3] h
  have "\<exists>traj. fst (run_simulation example_world2 (Vec (onehot 2 0)) 3) = Inr traj \<and>
           length traj = nat 3 + 1 \<and> traj ! 0 = Vec (onehot 2 0)"
    by blast
  with h show ?thesis by blast
qed

text \<open>
  C4. On a well-formed model, for every valid one-hot input of length \<open>n\<close>,
  \<open>sample_next_state\<close> returns the one-hot vector of an index below \<open>n\<close>, and
  \<open>run_simulation\<close> from it returns a trajectory all of whose elements are one-hot
  vectors of length \<open>n\<close> with their index below \<open>n\<close>.
\<close>

theorem states_stay_onehot:
  assumes "wf_model n (obj w)" "uniform01 (rand w)" "i < n"
  shows "(\<exists>j<n. fst (sample_next_state w (Vec (onehot n i))) = Inr (Vec (onehot n j))) \<and>
         (\<exists>traj. fst (run_simulation w (Vec (onehot n i)) k) = Inr traj \<and>
            (\<forall>s\<in>set traj. \<exists>j<n. s = Vec (onehot n j)))"
proof
  have u0: "rand w 0 < 1" using assms(2) by (simp add: uniform01_def)
  show "\<exists>j<n. fst (sample_next_state w (Vec (onehot n i))) = Inr (Vec (onehot n j))"
    using sample_next_state_onehot[OF assms(1,3) u0] by force
  obtain ys where ys:
      "simulation_loop (nat k) w (Vec (onehot n i)) [Vec (onehot n i)] =
         (Inr ([Vec (onehot n i)] @ ys), w\<lparr>rand := advance (nat k) (rand w)\<rparr>)"
      "\<forall>y\<in>set ys. \<exists>j<n. y = Vec (onehot n j)"
    using simulation_loop_success[OF assms, of "nat k" "[Vec (onehot n i)]"] by blast
  have "\<forall>s\<in>set ([Vec (onehot n i)] @ ys). \<exists>j<n. s = Vec (onehot n j)"
    using ys(2) assms(3) by auto
  then show "\<exists>traj. fst (run_simulation w (Vec (onehot n i)) k) = Inr traj \<and>
            (\<forall>s\<in>set traj. \<exists>j<n. s = Vec (onehot n j))"
    using ys(1) by (simp add: run_simulation_def)
qed

theorem states_stay_onehot_witness:
  "wf_model 2 (obj example_world2) \<and> uniform01 (rand example_world2) \<and> (1::nat) < 2 \<and>
   (\<exists>j<2. fst (sample_next_state example_world2 (Vec (onehot 2 1))) = Inr (Vec (onehot 2 j))) \<and>
   (\<exists>traj. fst (run_simulation example_world2 (Vec (onehot 2 1)) 4) = Inr traj \<and>
      (\<forall>s\<in>set traj. \<exists>j<2. s = Vec (onehot 2 j)))"
proof -
  have h1: "wf_model 2 (obj example_world2)" by (simp add: example_world2_def wf_example_model2)
  have h2: "uniform01 (rand example_world2)"
    by (simp add: example_world2_def uniform01_const_gen)
  have h3: "(1::nat) < 2" by simp
  from states_stay_onehot[OF h1 h2 h3, of 4] h1 h2 h3 show ?thesis by blast
qed

text \<open>
  C5. In a trajectory that \<open>run_simulation\<close> returns, element \<open>i + 1\<close> is the result of
  \<open>sample_next_state\<close> on element \<open>i\<close> with the \<open>i\<close>-th number of the generator: it is
  the same for every generator whose first number is that one, so no earlier element and
  no other draw has a part in it.
\<close>

theorem run_simulation_markov:
  assumes "fst (run_simulation w s0 k) = Inr traj" "i < nat k" "g 0 = rand w i"
  shows "fst (sample_next_state (w\<lparr>rand := g\<rparr>) (traj ! i)) = Inr (traj ! Suc i)"
proof -
  obtain w' where "simulation_loop (nat k) w s0 [s0] = (Inr traj, w')"
    using assms(1) by (cases "simulation_loop (nat k) w s0 [s0]") (simp add: run_simulation_def)
  then obtain ys where ys: "traj = [s0] @ ys" "length ys = nat k"
      "\<forall>i<nat k. fst (sample_next_state (w\<lparr>rand := advance i (rand w)\<rparr>) ((s0 # ys) ! i)) =
                Inr (ys ! i)"
    using simulation_loop_chain by blast
  have "advance i (rand w) 0 = g 0" using assms(3) by (simp add: advance_def)
  then have "fst (sample_next_state (w\<lparr>rand := g\<rparr>) (traj ! i)) =
        fst (sample_next_state (w\<lparr>rand := advance i (rand w)\<rparr>) (traj ! i))"
    using sample_next_state_first_draw[of g "advance i (rand w)" w "traj ! i"] by simp
  then show ?thesis using ys assms(2) by simp
qed

theorem run_simulation_markov_witness:
  "fst (run_simulation example_world2 (Vec [1, 0]) 2) = Inr [Vec [1, 0], Vec [0, 1], Vec [0, 1]] \<and>
   (0::nat) < nat 2 \<and> const_gen (1 / 2) 0 = rand example_world2 0 \<and>
   fst (sample_next_state (example_world2\<lparr>rand := const_gen (1 / 2)\<rparr>)
         ([Vec [1, 0], Vec [0, 1], Vec [0, 1]] ! 0)) =
     Inr ([Vec [1, 0], Vec [0, 1], Vec [0, 1]] ! Suc 0)"
proof -
  have h1: "fst (run_simulation example_world2 (Vec [1, 0]) 2) =
              Inr [Vec [1, 0], Vec [0, 1], Vec [0, 1]]"
    by (simp add: run_simulation_def numeral_2_eq_2 example_world2_step0 example_world2_step1)
  have h2: "(0::nat) < nat 2" by simp
  have h3: "const_gen (1 / 2) 0 = rand example_world2 0" by (simp add: example_world2_def)
  from run_simulation_markov[where g = "const_gen (1 / 2)" and i = 0, OF h1 h2 h3] h1 h2 h3
  show ?thesis by blast
qed

text \<open>
  C6 (as amended). None of the three calls is rejected, and the code has no
  InvalidArgument error: with \<open>world_size = 0\<close> the constructor returns a model with an
  empty matrix and draws nothing; with a negative \<open>num_steps\<close>, \<open>run_simulation\<close> returns
  the list holding the initial state; and on a well-formed model \<open>sample_next_state\<close>
  returns a one-hot state for every vector of length \<open>n\<close>, an all-zero vector or one with
  several nonzero entries included. The counterexample evaluates the three calls of the
  claim.
\<close>

theorem no_validation:
  "init 0 g = Inr \<lparr>obj = \<lparr>world_size = 0, states = [], transition_matrix = []\<rparr>, rand = g\<rparr> \<and>
   (k < 0 \<longrightarrow> run_simulation w s0 k = (Inr [s0], w)) \<and>
   (wf_model n (obj w) \<and> rand w 0 < 1 \<and> length v = n \<and> 0 < n \<longrightarrow>
      (\<exists>j<n. fst (sample_next_state w (Vec v)) = Inr (Vec (onehot n j))))"
proof (intro conjI impI)
  show "init 0 g = Inr \<lparr>obj = \<lparr>world_size = 0, states = [], transition_matrix = []\<rparr>, rand = g\<rparr>"
    using init_value[of 0 g] by (simp add: advance_0)
next
  assume "k < 0"
  then show "run_simulation w s0 k = (Inr [s0], w)" by (simp add: run_simulation_def)
next
  assume h: "wf_model n (obj w) \<and> rand w 0 < 1 \<and> length v = n \<and> 0 < n"
  then have ne: "v \<noteq> []" by auto
  obtain i where i: "np_argmax (Vec v) = Inr i" "i < length v"
    using np_argmax_Vec[OF ne] by blast
  have "sample_next_state w (Vec v) = sample_next_state w (Vec (onehot n i))"
    using sample_next_state_decode[OF i(1), of w] h by simp
  moreover have "\<exists>j<n. sample_next_state w (Vec (onehot n i)) =
           (Inr (Vec (onehot n j)), w\<lparr>rand := advance 1 (rand w)\<rparr>)"
    using sample_next_state_onehot[of n w i] h i(2) by simp
  ultimately show "\<exists>j<n. fst (sample_next_state w (Vec v)) = Inr (Vec (onehot n j))"
    by force
qed

theorem no_validation_counterexample:
  "init 0 (const_gen 0) =
     Inr \<lparr>obj = \<lparr>world_size = 0, states = [], transition_matrix = []\<rparr>, rand = const_gen 0\<rparr> \<and>
   fst (run_simulation identity_world3 (Vec [1, 0, 0]) (- 1)) = Inr [Vec [1, 0, 0]] \<and>
   fst (sample_next_state identity_world3 (Vec [0, 0, 0])) = Inr (Vec [1, 0, 0])"
proof -
  have am: "np_argmax (Vec [0, 0, 0]) = Inr 0" by simp
  have "init 0 (const_gen 0) =
     Inr \<lparr>obj = \<lparr>world_size = 0, states = [], transition_matrix = []\<rparr>, rand = const_gen 0\<rparr>"
    using init_value[of 0 "const_gen 0"] by (simp add: advance_const_gen)
  moreover have "fst (run_simulation identity_world3 (Vec [1, 0, 0]) (- 1)) = Inr [Vec [1, 0, 0]]"
    by (simp add: run_simulation_def)
  moreover have "fst (sample_next_state identity_world3 (Vec [0, 0, 0])) = Inr (Vec [1, 0, 0])"
    using identity_world3_step[OF _ am] by simp
  ultimately show ?thesis by blast
qed

theorem no_validation_witness:
  "init 0 (const_gen 0) =
     Inr \<lparr>obj = \<lparr>world_size = 0, states = [], transition_matrix = []\<rparr>, rand = const_gen 0\<rparr> \<and>
   (- 1 :: int) < 0 \<and>
   run_simulation identity_world3 (Vec [1, 0, 0]) (- 1) = (Inr [Vec [1, 0, 0]], identity_world3) \<and>
   wf_model 3 (obj identity_world3) \<and> rand identity_world3 0 < 1 \<and>
   length [0, 1, 1 :: real] = 3 \<and> (0::nat) < 3 \<and>
   (\<exists>j<3. fst (sample_next_state identity_world3 (Vec [0, 1, 1])) = Inr (Vec (onehot 3 j)))"
proof -
  have h1: "(- 1 :: int) < 0" by simp
  have h2: "wf_model 3 (obj identity_world3) \<and> rand identity_world3 0 < 1 \<and>
            length [0, 1, 1 :: real] = 3 \<and> (0::nat) < 3"
    by (simp add: wf_identity_world3) (simp add: identity_world3_def const_gen_def)
  from no_validation[of "const_gen 0" "- 1" identity_world3 "Vec [1, 0, 0]" 3 "[0, 1, 1]"] h1 h2
  show ?thesis by blast
qed

text \<open>
  C7 (as amended). A malformed vector is not rejected, and it is treated exactly as the
  one-hot vector of the index of the first of its largest entries: an all-zero vector as
  state 0, a vector with several nonzero entries as state 0 only when its first entry is
  among the largest. The claim as stated fails at \<open>(0, 1, 1)\<close>, which is decoded as state
  1: in the model whose matrix is the identity the call returns state 1, where row 0 can
  only give state 0.
\<close>

theorem malformed_decoded_by_argmax:
  "(0 < n \<longrightarrow>
      sample_next_state w (Vec (replicate n 0)) = sample_next_state w (Vec (onehot n 0))) \<and>
   (v \<noteq> [] \<longrightarrow>
      (\<exists>i<length v. np_argmax (Vec v) = Inr i \<and>
         (\<forall>l<length v. v ! l \<le> v ! i) \<and> (\<forall>l<i. v ! l < v ! i) \<and>
         sample_next_state w (Vec v) = sample_next_state w (Vec (onehot (length v) i))))"
proof (intro conjI impI)
  assume "0 < n"
  then have "np_argmax (Vec (replicate n 0)) = Inr 0" by (rule np_argmax_zeros)
  then show "sample_next_state w (Vec (replicate n 0)) = sample_next_state w (Vec (onehot n 0))"
    using sample_next_state_decode[of "replicate n 0" 0 w] by simp
next
  assume ne: "v \<noteq> []"
  obtain i where i: "np_argmax (Vec v) = Inr i" "i < length v"
      "\<forall>l<length v. v ! l \<le> v ! i" "\<forall>l<i. v ! l < v ! i"
    using np_argmax_Vec[OF ne] by blast
  have "sample_next_state w (Vec v) = sample_next_state w (Vec (onehot (length v) i))"
    by (rule sample_next_state_decode[OF i(1)])
  then show "\<exists>i<length v. np_argmax (Vec v) = Inr i \<and>
         (\<forall>l<length v. v ! l \<le> v ! i) \<and> (\<forall>l<i. v ! l < v ! i) \<and>
         sample_next_state w (Vec v) = sample_next_state w (Vec (onehot (length v) i))"
    using i by blast
qed

theorem malformed_not_row0_counterexample:
  "np_argmax (Vec [0, 1, 1]) = Inr 1 \<and>
   fst (sample_next_state identity_world3 (Vec [0, 1, 1])) = Inr (Vec [0, 1, 0]) \<and>
   fst (sample_next_state identity_world3 (Vec [1, 0, 0])) = Inr (Vec [1, 0, 0])"
proof -
  have a1: "np_argmax (Vec [0, 1, 1]) = Inr 1" by simp
  have a0: "np_argmax (Vec [1, 0, 0]) = Inr 0" by simp
  show ?thesis
    using identity_world3_step[OF _ a1] identity_world3_step[OF _ a0] a1 by simp
qed

theorem malformed_decoded_by_argmax_witness:
  "(0::nat) < 3 \<and>
   sample_next_state identity_world3 (Vec (replicate 3 0)) =
     sample_next_state identity_world3 (Vec (onehot 3 0)) \<and>
   [0, 1, 1 :: real] \<noteq> [] \<and>
   (\<exists>i<length [0, 1, 1 :: real]. np_argmax (Vec [0, 1, 1]) = Inr i \<and>
      (\<forall>l<length [0, 1, 1 :: real]. [0, 1, 1 :: real] ! l \<le> [0, 1, 1] ! i) \<and>
      (\<forall>l<i. [0, 1, 1 :: real] ! l < [0, 1, 1] ! i) \<and>
      sample_next_state identity_world3 (Vec [0, 1, 1]) =
        sample_next_state identity_world3 (Vec (onehot (length [0, 1, 1 :: real]) i)))"
proof -
  have h1: "(0::nat) < 3" by simp
  have h2: "[0, 1, 1 :: real] \<noteq> []" by simp
  from malformed_decoded_by_argmax[of 3 identity_world3 "[0, 1, 1]"] h1 h2
  show ?thesis by blast
qed

text \<open>
  C8 (as amended). A plain integer is not accepted as a state: for every integer \<open>k\<close>
  the decoded index is 0, whatever \<open>k\<close> is, and the call never returns a state; on a
  well-formed model it draws one number from row 0 and then fails with IndexError,
  when it writes into the zero-dimensional array that \<open>zeros_like\<close> made of the integer.
  The counterexample compares the integer 1 with the one-hot vector of index 1.
\<close>

theorem integer_index_fails:
  "np_argmax (Scalar k) = Inr 0 \<and>
   isl (fst (sample_next_state w (Scalar k))) \<and>
   (wf_model n (obj w) \<and> 0 < n \<longrightarrow>
      sample_next_state w (Scalar k) = (Inl IndexError, w\<lparr>rand := advance 1 (rand w)\<rparr>))"
proof (intro conjI impI)
  show "np_argmax (Scalar k) = Inr 0" by simp
  show "isl (fst (sample_next_state w (Scalar k)))"
    by (simp add: sample_next_state_def split: sum.splits prod.splits)
next
  assume h: "wf_model n (obj w) \<and> 0 < n"
  then obtain q where q: "fin_values (transition_matrix (obj w) ! 0) = Some q"
      "list_all (\<lambda>x. 0 \<le> x) q" "sum_list q = 1"
    using wf_model_row[of n "obj w" 0] by blast
  have len: "0 < length (transition_matrix (obj w))" using h by (simp add: wf_model_def)
  have am: "np_argmax (Scalar k) = Inr 0" by simp
  show "sample_next_state w (Scalar k) = (Inl IndexError, w\<lparr>rand := advance 1 (rand w)\<rparr>)"
    using sample_next_state_row[OF am len q] by simp
qed

theorem integer_index_counterexample:
  "fst (sample_next_state identity_world3 (Scalar 1)) = Inl IndexError \<and>
   fst (sample_next_state identity_world3 (Vec (onehot 3 1))) = Inr (Vec (onehot 3 1))"
proof -
  have a1: "np_argmax (Vec (onehot 3 1)) = Inr 1" by (simp add: np_argmax_onehot)
  have "fst (sample_next_state identity_world3 (Scalar 1)) = Inl IndexError"
    by (simp add: sample_next_state_def identity_world3_def identity_model3_def getitem_row_def
      np_random_choice_def np_cumsum_def searchsorted_right_def atol_def Let_def const_gen_def)
  moreover have "fst (sample_next_state identity_world3 (Vec (onehot 3 1))) =
      Inr (Vec (onehot 3 1))"
    using identity_world3_step[OF _ a1] by (simp add: onehot_def)
  ultimately show ?thesis by blast
qed

theorem integer_index_fails_witness:
  "wf_model 3 (obj identity_world3) \<and> (0::nat) < 3 \<and>
   np_argmax (Scalar 2) = Inr 0 \<and>
   isl (fst (sample_next_state identity_world3 (Scalar 2))) \<and>
   sample_next_state identity_world3 (Scalar 2) =
     (Inl IndexError, identity_world3\<lparr>rand := advance 1 (rand identity_world3)\<rparr>)"
proof -
  have h: "wf_model 3 (obj identity_world3) \<and> (0::nat) < 3" by (simp add: wf_identity_world3)
  from integer_index_fails[of 2 identity_world3 3] h show ?thesis by blast
qed




text \<open>
  C10. Whenever \<open>sample_next_state\<close> returns on a vector, the result has the length of
  the input and is zero but for a single 1; and on a well-formed model with \<open>n\<close> states,
  for an input longer than \<open>n\<close> whose first largest entry lies at an index below \<open>n\<close>, it
  does return, a one-hot vector of the input's length with its 1 below \<open>n\<close>.
\<close>

theorem output_shaped_like_input:
  "(fst (sample_next_state w (Vec v)) = Inr r \<longrightarrow>
      (\<exists>j<length v. r = Vec (onehot (length v) j))) \<and>
   (wf_model n (obj w) \<and> uniform01 (rand w) \<and> n < length v \<and>
    np_argmax (Vec v) = Inr i \<and> i < n \<longrightarrow>
      (\<exists>j<n. fst (sample_next_state w (Vec v)) = Inr (Vec (onehot (length v) j))))"
proof (intro conjI impI)
  assume "fst (sample_next_state w (Vec v)) = Inr r"
  then show "\<exists>j<length v. r = Vec (onehot (length v) j)"
    by (auto simp: sample_next_state_def onehot_def split: sum.splits prod.splits if_splits)
next
  assume h: "wf_model n (obj w) \<and> uniform01 (rand w) \<and> n < length v \<and>
    np_argmax (Vec v) = Inr i \<and> i < n"
  then obtain q where q: "fin_values (transition_matrix (obj w) ! i) = Some q" "length q = n"
      "list_all (\<lambda>x. 0 \<le> x) q" "sum_list q = 1"
    using wf_model_row by blast
  let ?j = "searchsorted_right (np_cumsum q) (rand w 0)"
  have len: "i < length (transition_matrix (obj w))" using h by (simp add: wf_model_def)
  have u0: "rand w 0 < 1" using h by (simp add: uniform01_def)
  have jn: "?j < n" using draw_in_range[OF q(3,4) u0] q(2) by simp
  have am: "np_argmax (Vec v) = Inr i" using h by simp
  have "sample_next_state w (Vec v) =
          (setitem (np_zeros_like (Vec v)) ?j 1, w\<lparr>rand := advance 1 (rand w)\<rparr>)"
    by (rule sample_next_state_row[OF am len q(1,3,4)])
  moreover have "setitem (np_zeros_like (Vec v)) ?j 1 = Inr (Vec (onehot (length v) ?j))"
    using setitem_zeros_onehot[of ?j v] jn h by simp
  ultimately show "\<exists>j<n. fst (sample_next_state w (Vec v)) = Inr (Vec (onehot (length v) j))"
    using jn by auto
qed

theorem output_shaped_like_input_witness:
  "fst (sample_next_state identity_world3 (Vec [0, 1, 0, 0])) = Inr (Vec [0, 1, 0, 0]) \<and>
   (\<exists>j<length [0, 1, 0, 0 :: real]. Vec [0, 1, 0, 0] = Vec (onehot (length [0, 1, 0, 0 :: real]) j)) \<and>
   wf_model 3 (obj identity_world3) \<and> uniform01 (rand identity_world3) \<and>
   3 < length [0, 1, 0, 0 :: real] \<and> np_argmax (Vec [0, 1, 0, 0]) = Inr 1 \<and> (1::nat) < 3 \<and>
   (\<exists>j<3. fst (sample_next_state identity_world3 (Vec [0, 1, 0, 0])) =
            Inr (Vec (onehot (length [0, 1, 0, 0 :: real]) j)))"
proof -
  have am: "np_argmax (Vec [0, 1, 0, 0]) = Inr 1" by simp
  have h1: "fst (sample_next_state identity_world3 (Vec [0, 1, 0, 0])) = Inr (Vec [0, 1, 0, 0])"
    using identity_world3_step[OF _ am] by simp
  have h2: "wf_model 3 (obj identity_world3) \<and> uniform01 (rand identity_world3) \<and>
            3 < length [0, 1, 0, 0 :: real] \<and> np_argmax (Vec [0, 1, 0, 0]) = Inr 1 \<and> (1::nat) < 3"
    using am by (simp add: wf_identity_world3 uniform01_identity_world3)
  from output_shaped_like_input[of identity_world3 "[0, 1, 0, 0]" "Vec [0, 1, 0, 0]" 3 1] h1 h2
  show ?thesis by blast
qed

end
